theory Spec2Isabelle
  imports Main
begin

section \<open>Strings and values of the host language\<close>

text \<open>
  The generator is TypeScript. Its strings are modelled as \<^typ>\<open>string\<close>; the only
  characters the generator inspects are ASCII (the four name keywords, the keys of the type
  table, the text \<^verbatim>\<open>return [\<close> and \<^verbatim>\<open>];\<close>, and the dollar patterns of a replacement
  text), and \<^verbatim>\<open>toLowerCase\<close> is modelled on the letters A to Z, every other character
  being left as it is: the model is exact for column names and types written in ASCII.
\<close>

definition upperAZ :: string where
  "upperAZ = ''ABCDEFGHIJKLMNOPQRSTUVWXYZ''"

definition lowerAZ :: string where
  "lowerAZ = ''abcdefghijklmnopqrstuvwxyz''"

definition toLowerCaseChar :: "char \<Rightarrow> char" where
  "toLowerCaseChar c = (case map_of (zip upperAZ lowerAZ) c of Some l \<Rightarrow> l | None \<Rightarrow> c)"

definition toLowerCase :: "string \<Rightarrow> string" where
  "toLowerCase s = map toLowerCaseChar s"

fun startsWith :: "string \<Rightarrow> string \<Rightarrow> bool" where
  "startsWith s [] = True"
| "startsWith [] (p # ps) = False"
| "startsWith (x # xs) (p # ps) = (x = p \<and> startsWith xs ps)"

text \<open>\<^verbatim>\<open>s.includes(p)\<close>: whether \<open>p\<close> occurs in \<open>s\<close> at some position.\<close>

fun includes_str :: "string \<Rightarrow> string \<Rightarrow> bool" where
  "includes_str [] p = startsWith [] p"
| "includes_str (x # xs) p = (startsWith (x # xs) p \<or> includes_str xs p)"

text \<open>\<^verbatim>\<open>xs.join(sep)\<close> on an array of strings; the empty array gives the empty string.\<close>

fun join :: "string \<Rightarrow> string list \<Rightarrow> string" where
  "join sep [] = []"
| "join sep [x] = x"
| "join sep (x # y # ys) = x @ sep @ join sep (y # ys)"

text \<open>\<^verbatim>\<open>s.split('\n')\<close>: the lines of a text.\<close>

fun splitLines :: "string \<Rightarrow> string list" where
  "splitLines [] = [[]]"
| "splitLines (x # xs) =
     (if x = CHR ''\<newline>'' then [] # splitLines xs
      else case splitLines xs of
             [] \<Rightarrow> [[x]]
           | l # ls \<Rightarrow> (x # l) # ls)"

text \<open>
  The values a property read of the type table can give: a string of the table, nothing,
  or a member inherited from the prototype of every object literal (a built-in function,
  or the prototype object itself under the key \<^verbatim>\<open>__proto__\<close>).
\<close>

datatype js_value =
    JSUndefined
  | JSString string
  | JSFunction string
  | JSObjectPrototype

text \<open>What a template literal \<^verbatim>\<open>${v}\<close> inserts for a value.\<close>

fun ToString :: "js_value \<Rightarrow> string" where
  "ToString JSUndefined = ''undefined''"
| "ToString (JSString s) = s"
| "ToString (JSFunction f) = ''function '' @ f @ ''() { [native code] }''"
| "ToString JSObjectPrototype = ''[object Object]''"

fun ToBoolean :: "js_value \<Rightarrow> bool" where
  "ToBoolean JSUndefined = False"
| "ToBoolean (JSString s) = (s \<noteq> [])"
| "ToBoolean (JSFunction f) = True"
| "ToBoolean JSObjectPrototype = True"

text \<open>\<^verbatim>\<open>a || b\<close>\<close>

definition js_or :: "js_value \<Rightarrow> js_value \<Rightarrow> js_value" where
  "js_or a b = (if ToBoolean a then a else b)"

text \<open>
  The members every object literal inherits. \<^verbatim>\<open>constructor\<close> is the function
  \<^verbatim>\<open>Object\<close>; \<^verbatim>\<open>__proto__\<close> reads the prototype object.
\<close>

definition objectPrototypeFunctions :: "(string \<times> string) list" where
  "objectPrototypeFunctions =
    [(''constructor'', ''Object''),
     (''__defineGetter__'', ''__defineGetter__''),
     (''__defineSetter__'', ''__defineSetter__''),
     (''hasOwnProperty'', ''hasOwnProperty''),
     (''__lookupGetter__'', ''__lookupGetter__''),
     (''__lookupSetter__'', ''__lookupSetter__''),
     (''isPrototypeOf'', ''isPrototypeOf''),
     (''propertyIsEnumerable'', ''propertyIsEnumerable''),
     (''toString'', ''toString''),
     (''valueOf'', ''valueOf''),
     (''toLocaleString'', ''toLocaleString'')]"

definition inheritedProperty :: "string \<Rightarrow> js_value" where
  "inheritedProperty k =
     (if k = ''__proto__'' then JSObjectPrototype
      else case map_of objectPrototypeFunctions k of
             Some f \<Rightarrow> JSFunction f
           | None \<Rightarrow> JSUndefined)"

text \<open>\<^verbatim>\<open>obj[k]\<close> on an object literal with the given own properties.\<close>

definition getProperty :: "(string \<times> string) list \<Rightarrow> string \<Rightarrow> js_value" where
  "getProperty obj k =
     (case map_of obj k of Some v \<Rightarrow> JSString v | None \<Rightarrow> inheritedProperty k)"

section \<open>The factory content generator\<close>

record column =
  name :: string
  type :: string

definition typeMap :: "(string \<times> string) list" where
  "typeMap =
    [(''varchar'', ''$this->faker->text()''),
     (''char'', ''$this->faker->text()''),
     (''text'', ''$this->faker->paragraph()''),
     (''integer'', ''$this->faker->numberBetween(1, 1000)''),
     (''bigint'', ''$this->faker->numberBetween(1, 1000)''),
     (''boolean'', ''$this->faker->boolean()''),
     (''date'', ''$this->faker->date()''),
     (''datetime'', ''$this->faker->dateTime()''),
     (''timestamp'', ''$this->faker->dateTime()''),
     (''decimal'', ''$this->faker->randomFloat(2, 0, 1000)''),
     (''float'', ''$this->faker->randomFloat(2, 0, 1000)''),
     (''json'', ''$this->faker->json()''),
     (''uuid'', ''$this->faker->uuid()'')]"

definition getFakerMethodForColumn :: "column \<Rightarrow> js_value" where
  "getFakerMethodForColumn column =
     (let type' = toLowerCase (type column);
          columnName = toLowerCase (name column)
      in if includes_str columnName ''email'' then JSString ''fake()->safeEmail()''
         else if includes_str columnName ''name'' then JSString ''fake()->name()''
         else if includes_str columnName ''phone'' then JSString ''fake()->phoneNumber()''
         else if includes_str columnName ''address'' then JSString ''fake()->address()''
         else js_or (getProperty typeMap type') (JSString ''fake()->text()''))"

text \<open>Whether one of the four name heuristics applies to a lowercased column name.\<close>

definition nameMatches :: "string \<Rightarrow> bool" where
  "nameMatches columnName \<longleftrightarrow>
     includes_str columnName ''email'' \<or> includes_str columnName ''name''
     \<or> includes_str columnName ''phone'' \<or> includes_str columnName ''address''"

text \<open>The line of one column, as the arrow function passed to \<^verbatim>\<open>map\<close> builds it.\<close>

definition columnLine :: "column \<Rightarrow> string" where
  "columnLine column =
     (let fakerMethod = getFakerMethodForColumn column
      in ''            '' @ [CHR 0x27] @ name column @ [CHR 0x27] @ '' => ''
           @ ToString fakerMethod @ '','')"

definition generateColumnDefinitions :: "column list \<Rightarrow> string" where
  "generateColumnDefinitions columns = join ''\<newline>'' (map columnLine columns)"

section \<open>Splicing the definitions into the factory file\<close>

text \<open>
  The regular expression \<^verbatim>\<open>/return \[([\s\S]*?)\];/\<close>. \<open>lazyBody\<close> is the lazy
  group followed by \<^verbatim>\<open>];\<close>: it takes as few characters as possible, any character
  allowed, and gives the group and the text after the match. \<open>matchHere\<close> matches the
  whole expression at the start of a text, and \<open>regexExec\<close> tries the start positions
  from left to right, giving the text before the match, the group and the text after.
\<close>

fun lazyBody :: "string \<Rightarrow> (string \<times> string) option" where
  "lazyBody [] = None"
| "lazyBody (x # xs) =
     (if startsWith (x # xs) ''];'' then Some ([], drop 2 (x # xs))
      else case lazyBody xs of
             None \<Rightarrow> None
           | Some (body, rest) \<Rightarrow> Some (x # body, rest))"

definition matchHere :: "string \<Rightarrow> (string \<times> string) option" where
  "matchHere s = (if startsWith s ''return ['' then lazyBody (drop 8 s) else None)"

fun regexExec :: "string \<Rightarrow> (string \<times> string \<times> string) option" where
  "regexExec [] = None"
| "regexExec (x # xs) =
     (case matchHere (x # xs) of
        Some (body, rest) \<Rightarrow> Some ([], body, rest)
      | None \<Rightarrow>
          (case regexExec xs of
             None \<Rightarrow> None
           | Some (pre, body, rest) \<Rightarrow> Some (x # pre, body, rest)))"

text \<open>
  The replacement text of \<^verbatim>\<open>String.prototype.replace\<close> is a template: in it
  \<^verbatim>\<open>$$\<close> stands for a dollar sign, \<^verbatim>\<open>$&\<close> for the matched text, \<^verbatim>\<open>$`\<close> for the text
  before the match, \<^verbatim>\<open>$'\<close> for the text after it, and \<^verbatim>\<open>$1\<close> or \<^verbatim>\<open>$01\<close> for the one
  group of the expression. Every other character, and a dollar sign followed by anything
  else, stands for itself.
\<close>

fun getSubstitution :: "string \<Rightarrow> string \<Rightarrow> string \<Rightarrow> string \<Rightarrow> string \<Rightarrow> string" where
  "getSubstitution matched pre post group1 [] = []"
| "getSubstitution matched pre post group1 [x] = [x]"
| "getSubstitution matched pre post group1 (x # y # ys) =
     (if x \<noteq> CHR ''$'' then x # getSubstitution matched pre post group1 (y # ys)
      else if y = CHR ''$'' then CHR ''$'' # getSubstitution matched pre post group1 ys
      else if y = CHR ''&'' then matched @ getSubstitution matched pre post group1 ys
      else if y = CHR 0x60 then pre @ getSubstitution matched pre post group1 ys
      else if y = CHR 0x27 then post @ getSubstitution matched pre post group1 ys
      else if y = CHR ''1'' then group1 @ getSubstitution matched pre post group1 ys
      else if y = CHR ''0'' \<and> startsWith ys ''1''
        then group1 @ getSubstitution matched pre post group1 (drop 1 ys)
      else x # getSubstitution matched pre post group1 (y # ys))"

text \<open>\<^verbatim>\<open>content.replace(/return \[([\s\S]*?)\];/, replacement)\<close>: the expression is not
  global, so at most the first match is replaced.\<close>

definition replace :: "string \<Rightarrow> string \<Rightarrow> string" where
  "replace content replacement =
     (case regexExec content of
        None \<Rightarrow> content
      | Some (pre, body, rest) \<Rightarrow>
          pre
          @ getSubstitution (''return ['' @ body @ ''];'') pre rest body replacement
          @ rest)"

text \<open>The constant \<^verbatim>\<open>updatedContent\<close> of \<^verbatim>\<open>updateFactoryContent\<close>.\<close>

definition updatedContent :: "string \<Rightarrow> string \<Rightarrow> string" where
  "updatedContent content definitions =
     replace content (''return [\<newline>'' @ definitions @ ''\<newline>        ];'')"

text \<open>
  \<^verbatim>\<open>updateFactoryContent\<close> with the files as a map from paths to contents and the
  database as the function that lists the columns of a table, if there is one. Reading a
  file that does not exist and using a database that is not there are its error paths.
\<close>

datatype error = ReadFileError | NoDatabaseError

definition updateFactoryContent ::
  "(string \<Rightarrow> column list) option \<Rightarrow> (string \<rightharpoonup> string) \<Rightarrow> string \<Rightarrow> string
     \<Rightarrow> error + (string \<rightharpoonup> string)"
where
  "updateFactoryContent database files factoryPath tableName =
     (case files factoryPath of
        None \<Rightarrow> Inl ReadFileError
      | Some content \<Rightarrow>
          (case database of
             None \<Rightarrow> Inl NoDatabaseError
           | Some getColumns \<Rightarrow>
               (let columns = getColumns tableName;
                    definitions = generateColumnDefinitions columns
                in Inr (files(factoryPath \<mapsto> updatedContent content definitions)))))"

text \<open>
  A replacement text in which every dollar sign is followed by a character that starts
  no pattern.
\<close>

fun dollarSafe :: "string \<Rightarrow> bool" where
  "dollarSafe [] = True"
| "dollarSafe [x] = (x \<noteq> CHR ''$'')"
| "dollarSafe (x # y # ys) =
     ((x = CHR ''$'' \<longrightarrow> y \<notin> {CHR ''$'', CHR ''&'', CHR 0x60, CHR 0x27, CHR ''0'', CHR ''1''})
      \<and> dollarSafe (y # ys))"

section \<open>The output grammar of the specification\<close>

text \<open>
  The generator-call texts the classifier names: the four of the name heuristics, the
  thirteen entries of the type table and the generic text expression.
\<close>

definition fixedExpressions :: "string list" where
  "fixedExpressions =
     [''fake()->safeEmail()'', ''fake()->name()'', ''fake()->phoneNumber()'',
      ''fake()->address()'']
     @ map snd typeMap @ [''fake()->text()'']"

text \<open>
  The grammar as the specification words it, \<^verbatim>\<open>('<identifier>' => <expression>,\n)*\<close>:
  any number of entries, each a quoted identifier (any text is admitted here), the arrow,
  one of the fixed expressions, a comma and a newline.
\<close>

inductive specGrammar :: "string \<Rightarrow> bool" where
  none: "specGrammar []"
| entry: "expression \<in> set fixedExpressions \<Longrightarrow> specGrammar rest \<Longrightarrow>
     specGrammar ([CHR 0x27] @ ident @ [CHR 0x27] @ '' => '' @ expression @ '',\<newline>'' @ rest)"

section \<open>Facts about the string functions\<close>

lemmas lower_defs = toLowerCase_def toLowerCaseChar_def upperAZ_def lowerAZ_def

lemmas classifier_defs =
  getFakerMethodForColumn_def Let_def js_or_def getProperty_def inheritedProperty_def
  typeMap_def objectPrototypeFunctions_def

lemmas renderer_defs = generateColumnDefinitions_def columnLine_def

lemma startsWith_iff: "startsWith s p \<longleftrightarrow> (\<exists>r. s = p @ r)"
  by (induction s p rule: startsWith.induct) auto

lemma includes_str_iff: "includes_str s p \<longleftrightarrow> (\<exists>l r. s = l @ p @ r)"
proof (induction s)
  case Nil
  show ?case by (simp add: startsWith_iff)
next
  case (Cons x xs)
  show ?case
  proof
    assume "includes_str (x # xs) p"
    then consider "startsWith (x # xs) p" | "includes_str xs p" by auto
    then show "\<exists>l r. x # xs = l @ p @ r"
    proof cases
      case 1
      then obtain r where "x # xs = p @ r" by (auto simp: startsWith_iff)
      then have "x # xs = [] @ p @ r" by simp
      then show ?thesis by blast
    next
      case 2
      then obtain l r where "xs = l @ p @ r" using Cons.IH by blast
      then have "x # xs = (x # l) @ p @ r" by simp
      then show ?thesis by blast
    qed
  next
    assume "\<exists>l r. x # xs = l @ p @ r"
    then obtain l r where e: "x # xs = l @ p @ r" by blast
    show "includes_str (x # xs) p"
    proof (cases l)
      case Nil
      with e have "startsWith (x # xs) p" by (auto simp: startsWith_iff)
      then show ?thesis by simp
    next
      case (Cons y ys)
      with e have "xs = ys @ p @ r" by simp
      then have "includes_str xs p" using Cons.IH by blast
      then show ?thesis by simp
    qed
  qed
qed

lemma toLowerCaseChar_not_upper: "toLowerCaseChar c \<notin> set upperAZ"
  by (cases "c \<in> set upperAZ") (auto simp: lower_defs)

lemma toLowerCase_no_upper: "set (toLowerCase s) \<inter> set upperAZ = {}"
  using toLowerCaseChar_not_upper by (auto simp: toLowerCase_def)

lemma toLowerCase_neq_upper:
  assumes "set k \<inter> set upperAZ \<noteq> {}"
  shows "toLowerCase t \<noteq> k"
  using assms toLowerCase_no_upper [of t] by auto

text \<open>
  A lowercased key reaches only two inherited members: every other member of the
  prototype has a capital letter in its name.
\<close>

lemma inheritedProperty_toLowerCase:
  "inheritedProperty (toLowerCase t) =
     (if toLowerCase t = ''__proto__'' then JSObjectPrototype
      else if toLowerCase t = ''constructor'' then JSFunction ''Object''
      else JSUndefined)"
proof -
  have "toLowerCase t \<noteq> ''__defineGetter__''" "toLowerCase t \<noteq> ''__defineSetter__''"
    "toLowerCase t \<noteq> ''hasOwnProperty''" "toLowerCase t \<noteq> ''__lookupGetter__''"
    "toLowerCase t \<noteq> ''__lookupSetter__''" "toLowerCase t \<noteq> ''isPrototypeOf''"
    "toLowerCase t \<noteq> ''propertyIsEnumerable''" "toLowerCase t \<noteq> ''toString''"
    "toLowerCase t \<noteq> ''valueOf''" "toLowerCase t \<noteq> ''toLocaleString''"
    by (rule toLowerCase_neq_upper, simp add: upperAZ_def)+
  then show ?thesis
    by (simp add: inheritedProperty_def objectPrototypeFunctions_def)
qed

lemma typeMap_values_nonempty: "map_of typeMap k = Some v \<Longrightarrow> v \<noteq> []"
  by (auto simp: typeMap_def split: if_splits)

text \<open>
  Without a name match, the result is the table entry of the lowercased type, an inherited
  member for the two keys that reach one, and the generic text expression otherwise.
\<close>

lemma type_lookup:
  assumes "\<not> nameMatches (toLowerCase (name c))"
  shows "getFakerMethodForColumn c =
           (case map_of typeMap (toLowerCase (type c)) of
              Some v \<Rightarrow> JSString v
            | None \<Rightarrow>
                if toLowerCase (type c) = ''__proto__'' then JSObjectPrototype
                else if toLowerCase (type c) = ''constructor'' then JSFunction ''Object''
                else JSString ''fake()->text()'')"
proof (cases "map_of typeMap (toLowerCase (type c))")
  case None
  define ty where "ty = toLowerCase (type c)"
  have ip: "inheritedProperty ty =
      (if ty = ''__proto__'' then JSObjectPrototype
       else if ty = ''constructor'' then JSFunction ''Object''
       else JSUndefined)"
    unfolding ty_def by (rule inheritedProperty_toLowerCase)
  have gp: "getProperty typeMap ty = inheritedProperty ty"
    using None by (simp add: getProperty_def ty_def)
  have "js_or (getProperty typeMap ty) (JSString ''fake()->text()'') =
      (if ty = ''__proto__'' then JSObjectPrototype
       else if ty = ''constructor'' then JSFunction ''Object''
       else JSString ''fake()->text()'')"
    unfolding gp ip js_or_def by simp
  then have "js_or (getProperty typeMap (toLowerCase (type c))) (JSString ''fake()->text()'') =
      (if toLowerCase (type c) = ''__proto__'' then JSObjectPrototype
       else if toLowerCase (type c) = ''constructor'' then JSFunction ''Object''
       else JSString ''fake()->text()'')"
    by (simp only: ty_def)
  with assms None show ?thesis
    by (simp add: getFakerMethodForColumn_def Let_def nameMatches_def)
next
  case (Some v)
  then have "v \<noteq> []" by (rule typeMap_values_nonempty)
  with assms Some show ?thesis
    by (simp add: getFakerMethodForColumn_def Let_def nameMatches_def js_or_def
        getProperty_def)
qed

section \<open>The classifier: name heuristics\<close>

text \<open>
  C1. The classifier tests the lowercased column name for \<^verbatim>\<open>email\<close>, \<^verbatim>\<open>name\<close>,
  \<^verbatim>\<open>phone\<close> and \<^verbatim>\<open>address\<close>, in this order, and the first keyword found decides the
  result: the safe-email expression for \<^verbatim>\<open>email\<close>, and the person-name, phone-number and
  address expressions for the other three when no earlier keyword occurs. The declared
  type \<open>t\<close> is arbitrary and plays no part.
\<close>

theorem name_heuristics_first_match:
  "(includes_str (toLowerCase n) ''email'' \<longrightarrow>
      getFakerMethodForColumn \<lparr>name = n, type = t\<rparr> = JSString ''fake()->safeEmail()'')
   \<and> (\<not> includes_str (toLowerCase n) ''email'' \<and> includes_str (toLowerCase n) ''name'' \<longrightarrow>
      getFakerMethodForColumn \<lparr>name = n, type = t\<rparr> = JSString ''fake()->name()'')
   \<and> (\<not> includes_str (toLowerCase n) ''email'' \<and> \<not> includes_str (toLowerCase n) ''name''
        \<and> includes_str (toLowerCase n) ''phone'' \<longrightarrow>
      getFakerMethodForColumn \<lparr>name = n, type = t\<rparr> = JSString ''fake()->phoneNumber()'')
   \<and> (\<not> includes_str (toLowerCase n) ''email'' \<and> \<not> includes_str (toLowerCase n) ''name''
        \<and> \<not> includes_str (toLowerCase n) ''phone''
        \<and> includes_str (toLowerCase n) ''address'' \<longrightarrow>
      getFakerMethodForColumn \<lparr>name = n, type = t\<rparr> = JSString ''fake()->address()'')"
  by (simp add: getFakerMethodForColumn_def Let_def)

theorem name_heuristics_first_match_witness:
  "includes_str (toLowerCase ''User_Email_Name'') ''email''
   \<and> getFakerMethodForColumn \<lparr>name = ''User_Email_Name'', type = ''integer''\<rparr>
       = JSString ''fake()->safeEmail()''
   \<and> \<not> includes_str (toLowerCase ''Phone_Name'') ''email''
   \<and> includes_str (toLowerCase ''Phone_Name'') ''name''
   \<and> getFakerMethodForColumn \<lparr>name = ''Phone_Name'', type = ''boolean''\<rparr>
       = JSString ''fake()->name()''
   \<and> \<not> includes_str (toLowerCase ''PHONE_ADDRESS'') ''email''
   \<and> \<not> includes_str (toLowerCase ''PHONE_ADDRESS'') ''name''
   \<and> includes_str (toLowerCase ''PHONE_ADDRESS'') ''phone''
   \<and> getFakerMethodForColumn \<lparr>name = ''PHONE_ADDRESS'', type = ''json''\<rparr>
       = JSString ''fake()->phoneNumber()''
   \<and> \<not> includes_str (toLowerCase ''address1'') ''email''
   \<and> \<not> includes_str (toLowerCase ''address1'') ''name''
   \<and> \<not> includes_str (toLowerCase ''address1'') ''phone''
   \<and> includes_str (toLowerCase ''address1'') ''address''
   \<and> getFakerMethodForColumn \<lparr>name = ''address1'', type = ''date''\<rparr>
       = JSString ''fake()->address()''"
proof -
  have e: "includes_str (toLowerCase ''User_Email_Name'') ''email''"
    by (simp add: lower_defs)
  have n: "\<not> includes_str (toLowerCase ''Phone_Name'') ''email''
           \<and> includes_str (toLowerCase ''Phone_Name'') ''name''"
    by (simp add: lower_defs)
  have p: "\<not> includes_str (toLowerCase ''PHONE_ADDRESS'') ''email''
           \<and> \<not> includes_str (toLowerCase ''PHONE_ADDRESS'') ''name''
           \<and> includes_str (toLowerCase ''PHONE_ADDRESS'') ''phone''"
    by (simp add: lower_defs)
  have a: "\<not> includes_str (toLowerCase ''address1'') ''email''
           \<and> \<not> includes_str (toLowerCase ''address1'') ''name''
           \<and> \<not> includes_str (toLowerCase ''address1'') ''phone''
           \<and> includes_str (toLowerCase ''address1'') ''address''"
    by (simp add: lower_defs)
  note first = name_heuristics_first_match
  note r1 = first [of "''User_Email_Name''" "''integer''", THEN conjunct1, THEN mp, OF e]
  note r2 = first [of "''Phone_Name''" "''boolean''", THEN conjunct2, THEN conjunct1,
                 THEN mp, OF n]
  note r3 = first [of "''PHONE_ADDRESS''" "''json''", THEN conjunct2, THEN conjunct2,
                 THEN conjunct1, THEN mp, OF p]
  note r4 = first [of "''address1''" "''date''", THEN conjunct2, THEN conjunct2,
                 THEN conjunct2, THEN mp, OF a]
  from e n p a r1 r2 r3 r4 show ?thesis by blast
qed

section \<open>The renderer on one column\<close>

text \<open>
  C8 as the specification words it: rendering the single column named \<^verbatim>\<open>email\<close> of type
  \<^verbatim>\<open>varchar\<close> gives the text \<^verbatim>\<open>'email' => fake()->safeEmail(),\<close>. The renderer does not
  give this text: its line starts with twelve spaces of indentation.
\<close>

theorem render_email_unindented_counterexample:
  "generateColumnDefinitions [\<lparr>name = ''email'', type = ''varchar''\<rparr>]
     \<noteq> [CHR 0x27] @ ''email'' @ [CHR 0x27] @ '' => fake()->safeEmail(),''"
  by (simp add: renderer_defs classifier_defs lower_defs)

text \<open>
  C8, amended: rendering the single column named \<^verbatim>\<open>email\<close> of type \<^verbatim>\<open>varchar\<close> gives
  twelve spaces followed by \<^verbatim>\<open>'email' => fake()->safeEmail(),\<close> and nothing else.
\<close>

theorem render_email_line:
  "generateColumnDefinitions [\<lparr>name = ''email'', type = ''varchar''\<rparr>]
     = ''            '' @ [CHR 0x27] @ ''email'' @ [CHR 0x27] @ '' => fake()->safeEmail(),''"
  by (simp add: renderer_defs classifier_defs lower_defs)

section \<open>The classifier: type lookup\<close>

text \<open>
  C2 says that a column without a name match whose lowercased type is absent from the
  table gets the generic text expression. The type \<^verbatim>\<open>constructor\<close> is absent from the
  table and no name heuristic applies to \<^verbatim>\<open>id\<close>, yet the property read finds the
  inherited member \<^verbatim>\<open>constructor\<close>, which is not empty, so the classifier returns the
  function \<^verbatim>\<open>Object\<close> and not the generic text expression.
\<close>

theorem type_lookup_constructor:
  "\<not> nameMatches (toLowerCase ''id'')
   \<and> map_of typeMap (toLowerCase ''constructor'') = None
   \<and> getFakerMethodForColumn \<lparr>name = ''id'', type = ''constructor''\<rparr> = JSFunction ''Object''
   \<and> getFakerMethodForColumn \<lparr>name = ''id'', type = ''constructor''\<rparr>
       \<noteq> JSString ''fake()->text()''"
  by (simp add: classifier_defs lower_defs nameMatches_def)

text \<open>
  C7 says that the classifier produces a string for every column. For the type
  \<^verbatim>\<open>__PROTO__\<close>, lowercased to \<^verbatim>\<open>__proto__\<close>, the property read gives the prototype
  object, and the classifier returns it: no string at all.
\<close>

theorem classifier_not_always_string:
  "\<not> (\<exists>s. getFakerMethodForColumn \<lparr>name = ''id'', type = ''__PROTO__''\<rparr> = JSString s)"
  by (simp add: classifier_defs lower_defs)

text \<open>
  C9. The type lookup is by equality with a key of the table. A column without a name
  match whose lowercased type contains a key \<open>k\<close> of the table, and is not itself a key,
  gets the generic text expression, not the entry of \<open>k\<close>.
\<close>

theorem type_lookup_exact:
  assumes "\<not> nameMatches (toLowerCase n)"
    and "k \<in> fst ` set typeMap"
    and "includes_str (toLowerCase t) k"
    and "toLowerCase t \<notin> fst ` set typeMap"
  shows "getFakerMethodForColumn \<lparr>name = n, type = t\<rparr> = JSString ''fake()->text()''"
proof -
  have none: "map_of typeMap (toLowerCase t) = None"
    using assms(4) by (simp add: map_of_eq_None_iff)
  have "\<not> includes_str ''__proto__'' k" "\<not> includes_str ''constructor'' k"
    using assms(2) by (auto simp: typeMap_def)
  with assms(3) have "toLowerCase t \<noteq> ''__proto__''" "toLowerCase t \<noteq> ''constructor''"
    by auto
  with none show ?thesis
    using assms(1) by (simp add: type_lookup)
qed

theorem type_lookup_exact_witness:
  "getFakerMethodForColumn \<lparr>name = ''title'', type = ''VARCHAR(255)''\<rparr>
     = JSString ''fake()->text()''
   \<and> getFakerMethodForColumn \<lparr>name = ''views'', type = ''unsigned bigint''\<rparr>
     = JSString ''fake()->text()''
   \<and> map_of typeMap ''varchar'' = Some ''$this->faker->text()''
   \<and> map_of typeMap ''bigint'' = Some ''$this->faker->numberBetween(1, 1000)''"
proof -
  have a: "\<not> nameMatches (toLowerCase ''title'')"
    and b: "''varchar'' \<in> fst ` set typeMap"
    and c: "includes_str (toLowerCase ''VARCHAR(255)'') ''varchar''"
    and d: "toLowerCase ''VARCHAR(255)'' \<notin> fst ` set typeMap"
    by (simp_all add: nameMatches_def lower_defs typeMap_def)
  have a': "\<not> nameMatches (toLowerCase ''views'')"
    and b': "''bigint'' \<in> fst ` set typeMap"
    and c': "includes_str (toLowerCase ''unsigned bigint'') ''bigint''"
    and d': "toLowerCase ''unsigned bigint'' \<notin> fst ` set typeMap"
    by (simp_all add: nameMatches_def lower_defs typeMap_def)
  have e: "map_of typeMap ''varchar'' = Some ''$this->faker->text()''"
    "map_of typeMap ''bigint'' = Some ''$this->faker->numberBetween(1, 1000)''"
    by (simp_all add: typeMap_def)
  from type_lookup_exact [OF a b c d] type_lookup_exact [OF a' b' c' d'] e
  show ?thesis by simp
qed

section \<open>The renderer\<close>

lemma map_nth_reorder:
  "\<forall>i\<in>set js. i < length xs \<Longrightarrow>
     map f (map (\<lambda>i. xs ! i) js) = map (\<lambda>i. map f xs ! i) js"
  by simp

text \<open>
  C3. Rendering \<open>N\<close> columns gives \<open>N\<close> lines joined by newlines, the \<open>i\<close>-th line
  built from the \<open>i\<close>-th column alone: its name and the result of the classifier on it.
  Rendering the columns in another order, given by a list \<open>js\<close> of positions, gives the
  same lines in that order.
\<close>

theorem render_order_preserved:
  "(\<exists>ls. length ls = length columns
        \<and> generateColumnDefinitions columns = join ''\<newline>'' ls
        \<and> (\<forall>i<length columns.
              ls ! i = ''            '' @ [CHR 0x27] @ name (columns ! i) @ [CHR 0x27] @ '' => ''
                         @ ToString (getFakerMethodForColumn (columns ! i)) @ '',''))
   \<and> (\<forall>js. (\<forall>i\<in>set js. i < length columns) \<longrightarrow>
          generateColumnDefinitions (map (\<lambda>i. columns ! i) js)
            = join ''\<newline>'' (map (\<lambda>i. map columnLine columns ! i) js))"
proof (intro conjI allI impI)
  show "\<exists>ls. length ls = length columns
        \<and> generateColumnDefinitions columns = join ''\<newline>'' ls
        \<and> (\<forall>i<length columns.
              ls ! i = ''            '' @ [CHR 0x27] @ name (columns ! i) @ [CHR 0x27] @ '' => ''
                         @ ToString (getFakerMethodForColumn (columns ! i)) @ '','')"
    by (rule exI [of _ "map columnLine columns"])
      (simp add: generateColumnDefinitions_def columnLine_def Let_def)
next
  fix js :: "nat list"
  assume "\<forall>i\<in>set js. i < length columns"
  then have "map columnLine (map (\<lambda>i. columns ! i) js) = map (\<lambda>i. map columnLine columns ! i) js"
    by (rule map_nth_reorder)
  then show "generateColumnDefinitions (map (\<lambda>i. columns ! i) js)
            = join ''\<newline>'' (map (\<lambda>i. map columnLine columns ! i) js)"
    by (simp only: generateColumnDefinitions_def)
qed

theorem render_order_preserved_witness:
  "generateColumnDefinitions
     [\<lparr>name = ''bio'', type = ''text''\<rparr>, \<lparr>name = ''age'', type = ''integer''\<rparr>]
     = ''            '' @ [CHR 0x27] @ ''bio'' @ [CHR 0x27] @ '' => $this->faker->paragraph(),''
       @ ''\<newline>''
       @ ''            '' @ [CHR 0x27] @ ''age'' @ [CHR 0x27]
       @ '' => $this->faker->numberBetween(1, 1000),''
   \<and> generateColumnDefinitions
     [\<lparr>name = ''age'', type = ''integer''\<rparr>, \<lparr>name = ''bio'', type = ''text''\<rparr>]
     = ''            '' @ [CHR 0x27] @ ''age'' @ [CHR 0x27]
       @ '' => $this->faker->numberBetween(1, 1000),''
       @ ''\<newline>''
       @ ''            '' @ [CHR 0x27] @ ''bio'' @ [CHR 0x27] @ '' => $this->faker->paragraph(),''"
proof -
  let ?cols = "[\<lparr>name = ''bio'', type = ''text''\<rparr>, \<lparr>name = ''age'', type = ''integer''\<rparr>]"
  have h: "\<forall>i\<in>set [1, 0 :: nat]. i < length ?cols" by simp
  have h': "\<forall>i\<in>set [0, 1 :: nat]. i < length ?cols" by simp
  note swap = render_order_preserved [of ?cols, THEN conjunct2, THEN spec, THEN mp, OF h]
  note same = render_order_preserved [of ?cols, THEN conjunct2, THEN spec, THEN mp, OF h']
  have l: "columnLine \<lparr>name = ''bio'', type = ''text''\<rparr>
      = ''            '' @ [CHR 0x27] @ ''bio'' @ [CHR 0x27] @ '' => $this->faker->paragraph(),''"
    "columnLine \<lparr>name = ''age'', type = ''integer''\<rparr>
      = ''            '' @ [CHR 0x27] @ ''age'' @ [CHR 0x27]
        @ '' => $this->faker->numberBetween(1, 1000),''"
    by (simp_all add: columnLine_def classifier_defs lower_defs)
  from swap same show ?thesis
    by (simp add: l)
qed

text \<open>
  The lines of the rendered text are the lines of the columns, when there is a column
  and no column name holds a newline.
\<close>

lemma splitLines_no_newline: "CHR ''\<newline>'' \<notin> set l \<Longrightarrow> splitLines l = [l]"
  by (induction l) auto

lemma splitLines_line:
  "CHR ''\<newline>'' \<notin> set l \<Longrightarrow> splitLines (l @ ''\<newline>'' @ rest) = l # splitLines rest"
  by (induction l) auto

lemma splitLines_join:
  "ls \<noteq> [] \<Longrightarrow> \<forall>l\<in>set ls. CHR ''\<newline>'' \<notin> set l \<Longrightarrow> splitLines (join ''\<newline>'' ls) = ls"
proof (induction "''\<newline>''" ls rule: join.induct)
  case 1
  then show ?case by simp
next
  case (2 x)
  then show ?case by (simp add: splitLines_no_newline)
next
  case (3 x y ys)
  then have ih: "splitLines (join ''\<newline>'' (y # ys)) = y # ys" and x: "CHR ''\<newline>'' \<notin> set x"
    by simp_all
  from splitLines_line [OF x, of "join ''\<newline>'' (y # ys)"] ih
  have "splitLines (x @ ''\<newline>'' @ join ''\<newline>'' (y # ys)) = x # y # ys"
    by (simp only:)
  then show ?case by (simp only: join.simps)
qed

lemma typeMap_values_no_newline: "v \<in> snd ` set typeMap \<Longrightarrow> CHR ''\<newline>'' \<notin> set v"
  by (auto simp: typeMap_def)

lemma classifier_no_newline: "CHR ''\<newline>'' \<notin> set (ToString (getFakerMethodForColumn c))"
proof (cases "nameMatches (toLowerCase (name c))")
  case True
  then show ?thesis
    by (auto simp: nameMatches_def getFakerMethodForColumn_def Let_def)
next
  case False
  show ?thesis
  proof (cases "map_of typeMap (toLowerCase (type c))")
    case None
    with False show ?thesis by (simp add: type_lookup)
  next
    case (Some v)
    then have "v \<in> snd ` set typeMap"
      by (metis map_of_SomeD snd_conv image_eqI)
    then have "CHR ''\<newline>'' \<notin> set v" by (rule typeMap_values_no_newline)
    with False Some show ?thesis by (simp add: type_lookup)
  qed
qed

lemma rendered_lines:
  assumes "columns \<noteq> []" and "\<forall>c\<in>set columns. CHR ''\<newline>'' \<notin> set (name c)"
  shows "splitLines (generateColumnDefinitions columns) = map columnLine columns"
proof -
  have "\<forall>l\<in>set (map columnLine columns). CHR ''\<newline>'' \<notin> set l"
    using assms(2) classifier_no_newline by (auto simp: columnLine_def Let_def)
  moreover from assms(1) have "map columnLine columns \<noteq> []" by simp
  ultimately show ?thesis
    unfolding generateColumnDefinitions_def by (intro splitLines_join)
qed

section \<open>The shape of the rendered block\<close>

lemma specGrammar_starts_with_quote: "specGrammar s \<Longrightarrow> s = [] \<or> hd s = CHR 0x27"
  by (erule specGrammar.cases) simp_all

lemma classifier_fixed:
  assumes "nameMatches (toLowerCase (name c))
           \<or> toLowerCase (type c) \<notin> {''constructor'', ''__proto__''}"
  shows "\<exists>e\<in>set fixedExpressions. getFakerMethodForColumn c = JSString e"
proof (cases "nameMatches (toLowerCase (name c))")
  case True
  then consider "includes_str (toLowerCase (name c)) ''email''"
    | "\<not> includes_str (toLowerCase (name c)) ''email''"
      "includes_str (toLowerCase (name c)) ''name''"
    | "\<not> includes_str (toLowerCase (name c)) ''email''"
      "\<not> includes_str (toLowerCase (name c)) ''name''"
      "includes_str (toLowerCase (name c)) ''phone''"
    | "\<not> includes_str (toLowerCase (name c)) ''email''"
      "\<not> includes_str (toLowerCase (name c)) ''name''"
      "\<not> includes_str (toLowerCase (name c)) ''phone''"
      "includes_str (toLowerCase (name c)) ''address''"
    unfolding nameMatches_def by blast
  then show ?thesis
    by cases (simp_all add: getFakerMethodForColumn_def Let_def fixedExpressions_def)
next
  case False
  with assms have ty: "toLowerCase (type c) \<noteq> ''constructor''"
    "toLowerCase (type c) \<noteq> ''__proto__''"
    by simp_all
  show ?thesis
  proof (cases "map_of typeMap (toLowerCase (type c))")
    case None
    with False ty have "getFakerMethodForColumn c = JSString ''fake()->text()''"
      by (simp add: type_lookup)
    then show ?thesis by (simp add: fixedExpressions_def)
  next
    case (Some v)
    then have "v \<in> snd ` set typeMap"
      by (metis map_of_SomeD snd_conv image_eqI)
    moreover from False Some have "getFakerMethodForColumn c = JSString v"
      by (simp add: type_lookup)
    ultimately show ?thesis by (simp add: fixedExpressions_def)
  qed
qed

text \<open>
  C6 as the specification words it: the rendered block matches the grammar
  \<^verbatim>\<open>('<identifier>' => <expression>,\n)*\<close>. The block rendered for the single column
  named \<^verbatim>\<open>id\<close> of type \<^verbatim>\<open>integer\<close> does not: it starts with the indentation, not with the
  quote, and no newline ends it.
\<close>

theorem rendered_block_not_in_grammar_counterexample:
  "\<not> specGrammar (generateColumnDefinitions [\<lparr>name = ''id'', type = ''integer''\<rparr>])"
proof
  assume "specGrammar (generateColumnDefinitions [\<lparr>name = ''id'', type = ''integer''\<rparr>])"
  then have "generateColumnDefinitions [\<lparr>name = ''id'', type = ''integer''\<rparr>] = []
      \<or> hd (generateColumnDefinitions [\<lparr>name = ''id'', type = ''integer''\<rparr>]) = CHR 0x27"
    by (rule specGrammar_starts_with_quote)
  then show False
    by (simp add: renderer_defs)
qed

text \<open>
  C6, amended. The rendered block is one line per column, the lines joined by a newline
  with none after the last; each line is twelve spaces, the column name in single quotes,
  the arrow, an expression and a comma. The expression is one of the fixed generator-call
  texts for every column that matches a name heuristic or whose lowercased type is
  neither \<^verbatim>\<open>constructor\<close> nor \<^verbatim>\<open>__proto__\<close>.
\<close>

theorem rendered_block_shape:
  "generateColumnDefinitions columns =
     join ''\<newline>''
       (map (\<lambda>c. ''            '' @ [CHR 0x27] @ name c @ [CHR 0x27] @ '' => ''
                  @ ToString (getFakerMethodForColumn c) @ '','') columns)
   \<and> (\<forall>c\<in>set columns.
         nameMatches (toLowerCase (name c))
         \<or> toLowerCase (type c) \<notin> {''constructor'', ''__proto__''} \<longrightarrow>
         (\<exists>e\<in>set fixedExpressions. getFakerMethodForColumn c = JSString e))"
proof
  have "columnLine = (\<lambda>c. ''            '' @ [CHR 0x27] @ name c @ [CHR 0x27] @ '' => ''
                  @ ToString (getFakerMethodForColumn c) @ '','')"
    by (rule ext) (simp add: columnLine_def Let_def)
  then show "generateColumnDefinitions columns =
     join ''\<newline>''
       (map (\<lambda>c. ''            '' @ [CHR 0x27] @ name c @ [CHR 0x27] @ '' => ''
                  @ ToString (getFakerMethodForColumn c) @ '','') columns)"
    by (simp only: generateColumnDefinitions_def)
next
  show "\<forall>c\<in>set columns.
         nameMatches (toLowerCase (name c))
         \<or> toLowerCase (type c) \<notin> {''constructor'', ''__proto__''} \<longrightarrow>
         (\<exists>e\<in>set fixedExpressions. getFakerMethodForColumn c = JSString e)"
    using classifier_fixed by blast
qed

theorem rendered_block_shape_witness:
  "nameMatches (toLowerCase ''user_name'')
   \<and> toLowerCase ''smallint'' \<noteq> ''constructor''
   \<and> toLowerCase ''smallint'' \<noteq> ''__proto__''
   \<and> getFakerMethodForColumn \<lparr>name = ''user_name'', type = ''constructor''\<rparr>
       = JSString ''fake()->name()''
   \<and> ''fake()->name()'' \<in> set fixedExpressions
   \<and> getFakerMethodForColumn \<lparr>name = ''widget_count'', type = ''smallint''\<rparr>
       = JSString ''fake()->text()''
   \<and> ''fake()->text()'' \<in> set fixedExpressions
   \<and> generateColumnDefinitions
        [\<lparr>name = ''user_name'', type = ''constructor''\<rparr>,
         \<lparr>name = ''widget_count'', type = ''smallint''\<rparr>]
      = ''            '' @ [CHR 0x27] @ ''user_name'' @ [CHR 0x27] @ '' => fake()->name(),''
        @ ''\<newline>''
        @ ''            '' @ [CHR 0x27] @ ''widget_count'' @ [CHR 0x27] @ '' => fake()->text(),''"
proof -
  let ?u = "\<lparr>name = ''user_name'', type = ''constructor''\<rparr>"
  let ?w = "\<lparr>name = ''widget_count'', type = ''smallint''\<rparr>"
  have hu: "nameMatches (toLowerCase ''user_name'')"
    by (simp add: nameMatches_def lower_defs)
  have hw: "toLowerCase ''smallint'' \<noteq> ''constructor''"
    "toLowerCase ''smallint'' \<noteq> ''__proto__''"
    by (simp_all add: lower_defs)
  note shape = rendered_block_shape [of "[?u, ?w]"]
  from shape [THEN conjunct2] hu hw
  obtain e f where e: "e \<in> set fixedExpressions" "getFakerMethodForColumn ?u = JSString e"
    and f: "f \<in> set fixedExpressions" "getFakerMethodForColumn ?w = JSString f"
    by auto
  have v: "getFakerMethodForColumn ?u = JSString ''fake()->name()''"
    "getFakerMethodForColumn ?w = JSString ''fake()->text()''"
    by (simp_all add: classifier_defs lower_defs)
  with e f have m: "''fake()->name()'' \<in> set fixedExpressions"
    "''fake()->text()'' \<in> set fixedExpressions"
    by simp_all
  from shape [THEN conjunct1] v have "generateColumnDefinitions [?u, ?w]
      = ''            '' @ [CHR 0x27] @ ''user_name'' @ [CHR 0x27] @ '' => fake()->name(),''
        @ ''\<newline>''
        @ ''            '' @ [CHR 0x27] @ ''widget_count'' @ [CHR 0x27] @ '' => fake()->text(),''"
    by simp
  with hu hw v m show ?thesis by blast
qed

section \<open>The regular expression\<close>

lemma startsWith_drop: "startsWith s p \<Longrightarrow> s = p @ drop (length p) s"
  by (auto simp: startsWith_iff)

lemma lazyBody_sound: "lazyBody s = Some (b, r) \<Longrightarrow> s = b @ ''];'' @ r"
proof (induction s arbitrary: b)
  case Nil
  then show ?case by simp
next
  case (Cons x xs)
  show ?case
  proof (cases "startsWith (x # xs) ''];''")
    case True
    with Cons.prems have "b = []" "r = drop 2 (x # xs)" by simp_all
    with startsWith_drop [OF True] show ?thesis by simp
  next
    case False
    with Cons.prems obtain b0 where "lazyBody xs = Some (b0, r)" "b = x # b0"
      by (auto split: option.splits)
    with Cons.IH show ?thesis by simp
  qed
qed

lemma lazyBody_complete:
  "s = b @ ''];'' @ r \<Longrightarrow> \<exists>b' r'. lazyBody s = Some (b', r') \<and> length b' \<le> length b"
proof (induction b arbitrary: s)
  case Nil
  then show ?case by simp
next
  case (Cons x b0)
  then obtain xs where s: "s = x # xs" "xs = b0 @ ''];'' @ r" by simp
  from Cons.IH [OF s(2)] obtain b' r' where "lazyBody xs = Some (b', r')" "length b' \<le> length b0"
    by blast
  with s(1) show ?case by (cases "startsWith (x # xs) ''];''") simp_all
qed

lemma lazyBody_shortest: "lazyBody s = Some (b, r) \<Longrightarrow> \<not> includes_str (b @ '']'') ''];''"
proof (induction s arbitrary: b)
  case Nil
  then show ?case by simp
next
  case (Cons x xs)
  show ?case
  proof (cases "startsWith (x # xs) ''];''")
    case True
    with Cons.prems have "b = []" by simp
    then show ?thesis by simp
  next
    case False
    with Cons.prems obtain b0 where b0: "lazyBody xs = Some (b0, r)" "b = x # b0"
      by (auto split: option.splits)
    from lazyBody_sound [OF b0(1)] have xs: "xs = b0 @ ''];'' @ r" .
    from Cons.IH [OF b0(1)] have ih: "\<not> includes_str (b0 @ '']'') ''];''" .
    from False xs have "\<not> startsWith (x # b0 @ '']'') ''];''"
      by (cases b0) auto
    with ih b0(2) show ?thesis by simp
  qed
qed

lemma matchHere_sound: "matchHere s = Some (b, r) \<Longrightarrow> s = ''return ['' @ b @ ''];'' @ r"
proof -
  assume m: "matchHere s = Some (b, r)"
  then have sw: "startsWith s ''return [''" and lb: "lazyBody (drop 8 s) = Some (b, r)"
    by (auto simp: matchHere_def split: if_splits)
  from startsWith_drop [OF sw] have "s = ''return ['' @ drop 8 s"
    by (simp add: eval_nat_numeral)
  with lazyBody_sound [OF lb] show ?thesis by simp
qed

lemma matchHere_complete:
  "s = ''return ['' @ b @ ''];'' @ r \<Longrightarrow> \<exists>b' r'. matchHere s = Some (b', r')"
proof -
  assume s: "s = ''return ['' @ b @ ''];'' @ r"
  then have "startsWith s ''return [''" by simp
  moreover from s have "drop 8 s = b @ ''];'' @ r" by simp
  then obtain b' r' where "lazyBody (drop 8 s) = Some (b', r')"
    using lazyBody_complete by blast
  ultimately show ?thesis by (simp add: matchHere_def)
qed

lemma regexExec_sound:
  "regexExec s = Some (p, b, r) \<Longrightarrow> s = p @ ''return ['' @ b @ ''];'' @ r"
proof (induction s arbitrary: p)
  case Nil
  then show ?case by simp
next
  case (Cons x xs)
  show ?case
  proof (cases "matchHere (x # xs)")
    case None
    with Cons.prems obtain p0 where "regexExec xs = Some (p0, b, r)" "p = x # p0"
      by (auto split: option.splits)
    with Cons.IH show ?thesis by simp
  next
    case (Some br)
    with Cons.prems have "p = []" "br = (b, r)" by (auto split: prod.splits)
    with Some matchHere_sound show ?thesis by simp
  qed
qed

lemma regexExec_shortest:
  "regexExec s = Some (p, b, r) \<Longrightarrow> \<not> includes_str (b @ '']'') ''];''"
proof (induction s arbitrary: p)
  case Nil
  then show ?case by simp
next
  case (Cons x xs)
  show ?case
  proof (cases "matchHere (x # xs)")
    case None
    with Cons.prems obtain p0 where "regexExec xs = Some (p0, b, r)"
      by (auto split: option.splits)
    with Cons.IH show ?thesis by simp
  next
    case (Some br)
    with Cons.prems have "matchHere (x # xs) = Some (b, r)" by (auto split: prod.splits)
    then have "lazyBody (drop 8 (x # xs)) = Some (b, r)"
      by (auto simp: matchHere_def split: if_splits)
    then show ?thesis by (rule lazyBody_shortest)
  qed
qed

lemma regexExec_leftmost:
  "s = p @ ''return ['' @ b @ ''];'' @ r \<Longrightarrow>
     \<exists>p' b' r'. regexExec s = Some (p', b', r') \<and> length p' \<le> length p"
proof (induction p arbitrary: s)
  case Nil
  then obtain b' r' where m: "matchHere s = Some (b', r')"
    using matchHere_complete by fastforce
  from Nil obtain x xs where "s = x # xs" by simp
  with m show ?case by simp
next
  case (Cons x p0)
  then obtain xs where s: "s = x # xs" "xs = p0 @ ''return ['' @ b @ ''];'' @ r" by simp
  from Cons.IH [OF s(2)] obtain p' b' r' where
    "regexExec xs = Some (p', b', r')" "length p' \<le> length p0" by blast
  with s(1) show ?case by (cases "matchHere (x # xs)") auto
qed

lemma regexExec_None_iff:
  "regexExec s = None \<longleftrightarrow> \<not> (\<exists>p b r. s = p @ ''return ['' @ b @ ''];'' @ r)"
proof
  assume "regexExec s = None"
  then show "\<not> (\<exists>p b r. s = p @ ''return ['' @ b @ ''];'' @ r)"
    using regexExec_leftmost by fastforce
next
  assume n: "\<not> (\<exists>p b r. s = p @ ''return ['' @ b @ ''];'' @ r)"
  show "regexExec s = None"
  proof (cases "regexExec s")
    case None
    then show ?thesis .
  next
    case (Some m)
    then obtain p b r where "regexExec s = Some (p, b, r)" by (cases m) auto
    with regexExec_sound n show ?thesis by blast
  qed
qed

text \<open>
  What the expression finds is the first occurrence: the text splits at the match, the
  group is the shortest that \<^verbatim>\<open>];\<close> follows, and no occurrence of \<^verbatim>\<open>return [\<close> with a
  later \<^verbatim>\<open>];\<close> starts further left.
\<close>

lemma regexExec_first_occurrence:
  assumes "regexExec s = Some (p, b, r)"
  shows "s = p @ ''return ['' @ b @ ''];'' @ r"
    and "\<not> includes_str (b @ '']'') ''];''"
    and "s = p' @ ''return ['' @ b' @ ''];'' @ r' \<Longrightarrow> length p \<le> length p'"
proof -
  show "s = p @ ''return ['' @ b @ ''];'' @ r" using assms by (rule regexExec_sound)
  show "\<not> includes_str (b @ '']'') ''];''" using assms by (rule regexExec_shortest)
  assume "s = p' @ ''return ['' @ b' @ ''];'' @ r'"
  then obtain q c t where "regexExec s = Some (q, c, t)" "length q \<le> length p'"
    using regexExec_leftmost by blast
  with assms show "length p \<le> length p'" by simp
qed

section \<open>The replacement text\<close>

lemma getSubstitution_dollarSafe:
  "dollarSafe t \<Longrightarrow> getSubstitution m p a g t = t"
  by (induction m p a g t rule: getSubstitution.induct) auto

lemma dollarSafe_append: "dollarSafe u \<Longrightarrow> dollarSafe v \<Longrightarrow> dollarSafe (u @ v)"
proof (induction u rule: dollarSafe.induct)
  case 1
  then show ?case by simp
next
  case (2 x)
  then show ?case by (cases v) simp_all
next
  case (3 x y ys)
  then show ?case by simp
qed

lemma dollarSafe_no_dollar: "CHR ''$'' \<notin> set u \<Longrightarrow> dollarSafe u"
  by (induction u rule: dollarSafe.induct) auto

text \<open>
  Where the expression matches, a replacement text free of patterns is put in for the
  first match, and the text before and after the match stays.
\<close>

lemma updatedContent_first_match:
  assumes "regexExec content = Some (p, b, r)" and "dollarSafe definitions"
  shows "updatedContent content definitions
           = p @ ''return [\<newline>'' @ definitions @ ''\<newline>        ];'' @ r"
proof -
  have "dollarSafe ''return [\<newline>''" "dollarSafe ''\<newline>        ];''" by simp_all
  with assms(2) have "dollarSafe (''return [\<newline>'' @ definitions @ ''\<newline>        ];'')"
    by (intro dollarSafe_append)
  then show ?thesis
    using assms(1) by (simp add: updatedContent_def replace_def getSubstitution_dollarSafe)
qed

lemma typeMap_values_dollarSafe: "v \<in> snd ` set typeMap \<Longrightarrow> dollarSafe v"
  by (auto simp: typeMap_def)

lemma classifier_dollarSafe: "dollarSafe (ToString (getFakerMethodForColumn c))"
proof (cases "nameMatches (toLowerCase (name c))")
  case True
  then show ?thesis
    by (auto simp: nameMatches_def getFakerMethodForColumn_def Let_def)
next
  case False
  show ?thesis
  proof (cases "map_of typeMap (toLowerCase (type c))")
    case None
    with False show ?thesis by (simp add: type_lookup)
  next
    case (Some v)
    then have "v \<in> snd ` set typeMap"
      by (metis map_of_SomeD snd_conv image_eqI)
    then have "dollarSafe v" by (rule typeMap_values_dollarSafe)
    with False Some show ?thesis by (simp add: type_lookup)
  qed
qed

lemma columnLine_dollarSafe:
  assumes "CHR ''$'' \<notin> set (name c)"
  shows "dollarSafe (columnLine c)"
proof -
  have "dollarSafe (name c)" using assms by (rule dollarSafe_no_dollar)
  moreover have "dollarSafe ''            ''" "dollarSafe [CHR 0x27]" "dollarSafe '' => ''"
    "dollarSafe '',''"
    by simp_all
  ultimately show ?thesis
    unfolding columnLine_def Let_def
    by (intro dollarSafe_append classifier_dollarSafe)
qed

lemma join_dollarSafe:
  "\<forall>l\<in>set ls. dollarSafe l \<Longrightarrow> dollarSafe (join ''\<newline>'' ls)"
proof (induction "''\<newline>''" ls rule: join.induct)
  case 1
  then show ?case by simp
next
  case (2 x)
  then show ?case by simp
next
  case (3 x y ys)
  then have "dollarSafe x" "dollarSafe (join ''\<newline>'' (y # ys))" by simp_all
  moreover have "dollarSafe ''\<newline>''" by simp
  ultimately have "dollarSafe (x @ ''\<newline>'' @ join ''\<newline>'' (y # ys))"
    by (intro dollarSafe_append)
  then show ?case by (simp only: join.simps)
qed

text \<open>
  For columns without a dollar sign in their names, the rendered block is put in for the
  first match as it is.
\<close>

lemma updatedContent_of_columns:
  assumes "regexExec content = Some (p, b, r)"
    and "\<forall>c\<in>set columns. CHR ''$'' \<notin> set (name c)"
  shows "updatedContent content (generateColumnDefinitions columns)
           = p @ ''return [\<newline>'' @ generateColumnDefinitions columns
               @ ''\<newline>        ];'' @ r"
proof -
  from assms(2) have "dollarSafe (generateColumnDefinitions columns)"
    unfolding generateColumnDefinitions_def
    by (intro join_dollarSafe) (simp add: columnLine_dollarSafe)
  with assms(1) show ?thesis by (rule updatedContent_first_match)
qed

section \<open>The splice\<close>

text \<open>
  C4 says that, where the text holds the pattern, the first match is replaced by
  \<^verbatim>\<open>return [\<close>, a newline, the definitions, a newline, eight spaces and \<^verbatim>\<open>];\<close>, for
  every definitions block. The block rendered for a column named \<^verbatim>\<open>a$\<close> holds the
  dollar sign followed by the closing quote of the name, which the replacement reads as
  the pattern for the text after the match: the quote is lost and the rest of the file,
  here \<^verbatim>\<open>}\<close>, is copied into the array.
\<close>

theorem splice_dollar_pattern:
  "regexExec ''return [];}'' = Some ([], [], ''}'')
   \<and> updatedContent ''return [];}''
         (generateColumnDefinitions [\<lparr>name = ''a$'', type = ''integer''\<rparr>])
       = ''return [\<newline>            '' @ [CHR 0x27]
         @ ''a} => $this->faker->numberBetween(1, 1000),\<newline>        ];}''
   \<and> updatedContent ''return [];}''
         (generateColumnDefinitions [\<lparr>name = ''a$'', type = ''integer''\<rparr>])
       \<noteq> [] @ ''return [\<newline>''
           @ generateColumnDefinitions [\<lparr>name = ''a$'', type = ''integer''\<rparr>]
           @ ''\<newline>        ];'' @ ''}''"
proof -
  have m: "regexExec ''return [];}'' = Some ([], [], ''}'')"
    by (simp add: matchHere_def)
  have d: "generateColumnDefinitions [\<lparr>name = ''a$'', type = ''integer''\<rparr>]
      = ''            '' @ [CHR 0x27] @ ''a$'' @ [CHR 0x27]
        @ '' => $this->faker->numberBetween(1, 1000),''"
    by (simp add: renderer_defs classifier_defs lower_defs)
  show ?thesis
    unfolding d by (simp add: updatedContent_def replace_def m del: regexExec.simps)
qed

text \<open>
  C5. A text that holds no \<^verbatim>\<open>return [\<close> followed somewhere by \<^verbatim>\<open>];\<close> is returned as
  it is, for every definitions block; and the update of the file succeeds, leaving every
  file with the content it had.
\<close>

theorem splice_no_match:
  assumes "\<not> (\<exists>p b r. content = p @ ''return ['' @ b @ ''];'' @ r)"
  shows "updatedContent content definitions = content
     \<and> (files factoryPath = Some content \<longrightarrow>
          updateFactoryContent (Some getColumns) files factoryPath tableName = Inr files)"
proof -
  from assms have none: "regexExec content = None"
    by (simp add: regexExec_None_iff)
  then have same: "\<And>d. updatedContent content d = content"
    by (simp add: updatedContent_def replace_def)
  show ?thesis
  proof (intro conjI impI)
    show "updatedContent content definitions = content" by (rule same)
  next
    assume f: "files factoryPath = Some content"
    then have "files(factoryPath \<mapsto> content) = files" by (rule map_upd_triv)
    with f same show
      "updateFactoryContent (Some getColumns) files factoryPath tableName = Inr files"
      by (simp add: updateFactoryContent_def Let_def)
  qed
qed

theorem splice_no_match_witness:
  "\<not> (\<exists>p b r. ''<?php return 1;'' = p @ ''return ['' @ b @ ''];'' @ r)
   \<and> updatedContent ''<?php return 1;''
        (generateColumnDefinitions [\<lparr>name = ''age'', type = ''integer''\<rparr>])
      = ''<?php return 1;''
   \<and> updateFactoryContent (Some (\<lambda>t. [\<lparr>name = ''age'', type = ''integer''\<rparr>]))
        [''UserFactory.php'' \<mapsto> ''<?php return 1;''] ''UserFactory.php'' ''users''
      = Inr [''UserFactory.php'' \<mapsto> ''<?php return 1;'']"
proof -
  have "regexExec ''<?php return 1;'' = None"
    by (simp add: matchHere_def)
  then have h: "\<not> (\<exists>p b r. ''<?php return 1;'' = p @ ''return ['' @ b @ ''];'' @ r)"
    using regexExec_None_iff by blast
  have f: "[''UserFactory.php'' \<mapsto> ''<?php return 1;''] ''UserFactory.php''
      = Some ''<?php return 1;''"
    by simp
  note r = splice_no_match
    [where content = "''<?php return 1;''"
       and definitions = "generateColumnDefinitions [\<lparr>name = ''age'', type = ''integer''\<rparr>]"
       and files = "[''UserFactory.php'' \<mapsto> ''<?php return 1;'']"
       and factoryPath = "''UserFactory.php''"
       and getColumns = "\<lambda>t. [\<lparr>name = ''age'', type = ''integer''\<rparr>]"
       and tableName = "''users''", OF h]
  from r [THEN conjunct1] r [THEN conjunct2, THEN mp, OF f] h show ?thesis
    by blast
qed

text \<open>
  C10. No columns render to the empty text; and where the expression matches a text,
  with \<open>p\<close> before the first match and \<open>r\<close> after it, splicing that empty block puts
  \<^verbatim>\<open>return [\<close>, two newlines, eight spaces and \<^verbatim>\<open>];\<close> between \<open>p\<close> and \<open>r\<close>.
\<close>

theorem splice_empty_block:
  "generateColumnDefinitions [] = []
   \<and> (regexExec content = Some (p, b, r) \<longrightarrow>
        content = p @ ''return ['' @ b @ ''];'' @ r
        \<and> updatedContent content (generateColumnDefinitions [])
            = p @ ''return [\<newline>\<newline>        ];'' @ r)"
proof (intro conjI impI)
  show e: "generateColumnDefinitions [] = []"
    by (simp add: generateColumnDefinitions_def)
  assume m: "regexExec content = Some (p, b, r)"
  then show "content = p @ ''return ['' @ b @ ''];'' @ r" by (rule regexExec_sound)
  have "dollarSafe []" by simp
  with m have "updatedContent content [] = p @ ''return [\<newline>'' @ [] @ ''\<newline>        ];'' @ r"
    by (rule updatedContent_first_match)
  then show "updatedContent content (generateColumnDefinitions [])
            = p @ ''return [\<newline>\<newline>        ];'' @ r"
    by (simp add: e)
qed

theorem splice_empty_block_witness:
  "regexExec ''{ return [ 1 ]; } return [2];'' = Some (''{ '', '' 1 '', '' } return [2];'')
   \<and> updatedContent ''{ return [ 1 ]; } return [2];'' (generateColumnDefinitions [])
       = ''{ return [\<newline>\<newline>        ]; } return [2];''"
proof -
  have m: "regexExec ''{ return [ 1 ]; } return [2];''
      = Some (''{ '', '' 1 '', '' } return [2];'')"
    by (simp add: matchHere_def)
  from splice_empty_block [of "''{ return [ 1 ]; } return [2];''" "''{ ''" "'' 1 ''"
      "'' } return [2];''", THEN conjunct2, THEN mp, OF m, THEN conjunct2] m
  show ?thesis by (simp del: regexExec.simps)
qed

end
